theory Spec2Isabelle
  imports Main
begin

section \<open>Strings of the program\<close>

text \<open>
  The program is TypeScript; a string is a sequence of code units and \<open>.length\<close> counts
  them. Here a string is a \<^typ>\<open>string\<close>, so the code units are those below 256. In that
  range the characters matched by the regular-expression class \<open>\s\<close> and removed by
  \<open>String.prototype.trim\<close> are the same seven: tab, line feed, vertical tab, form feed,
  carriage return, space and no-break space.
\<close>

definition is_space :: "char \<Rightarrow> bool" where
  "is_space c =
     (c = CHR 0x09 \<or> c = CHR 0x0A \<or> c = CHR 0x0B \<or> c = CHR 0x0C \<or> c = CHR 0x0D \<or>
      c = CHR 0x20 \<or> c = CHR 0xA0)"

text \<open>The class \<open>[.!?]\<close> of the chunker's regular expression.\<close>

definition is_terminal :: "char \<Rightarrow> bool" where
  "is_terminal c = (c = CHR ''.'' \<or> c = CHR ''!'' \<or> c = CHR ''?'')"

text \<open>\<open>s.trim()\<close>: the string without its leading and trailing white space.\<close>

definition trim :: "string \<Rightarrow> string" where
  "trim s = rev (dropWhile is_space (rev (dropWhile is_space s)))"

section \<open>The chunker\<close>

text \<open>
  \<open>text.split(/(?<=[.!?])\s+/)\<close>. The built-in walks the text from left to right; a
  separator starts at a white-space character whose predecessor is one of \<open>.\<close>, \<open>!\<close>,
  \<open>?\<close> and extends over the whole run of white space that follows (\<open>\s+\<close> is greedy).
  The piece read so far is emitted, the run is dropped, and reading goes on after it.
  The text that is left at the end is the last piece, also when it is empty, so the
  result is never the empty list. \<open>after_terminal\<close> says that the character just read
  is in \<open>[.!?]\<close> (the look-behind); it is false at the start of the text and right after
  a separator.
\<close>

function split_pieces :: "bool \<Rightarrow> string \<Rightarrow> string \<Rightarrow> string list" where
  "split_pieces after_terminal cur [] = [cur]"
| "split_pieces after_terminal cur (c # cs) =
     (if after_terminal \<and> is_space c
      then cur # split_pieces False [] (dropWhile is_space cs)
      else split_pieces (is_terminal c) (cur @ [c]) cs)"
  by pat_completeness auto
termination
  by (relation "measure (\<lambda>(a, cur, rest). length rest)")
     (auto simp: length_dropWhile_le less_Suc_eq_le)

definition split_sentences :: "string \<Rightarrow> string list" where
  "split_sentences text = split_pieces False [] text"

text \<open>
  The loop of \<open>chunk\<close> over the pieces, with its two variables \<open>parts\<close> and \<open>buf\<close>:
  \<^verbatim>\<open>
    if ((buf + " " + piece).length > maxLen) { parts.push(buf.trim()); buf = piece; }
    else { buf += (buf ? " " : "") + piece; }
  \<close>
\<close>

fun chunk_loop :: "nat \<Rightarrow> string list \<Rightarrow> string list \<Rightarrow> string \<Rightarrow> string list \<times> string" where
  "chunk_loop maxLen [] parts buf = (parts, buf)"
| "chunk_loop maxLen (piece # pieces) parts buf =
     (if length (buf @ '' '' @ piece) > maxLen
      then chunk_loop maxLen pieces (parts @ [trim buf]) piece
      else chunk_loop maxLen pieces parts (buf @ (if buf \<noteq> [] then '' '' else []) @ piece))"

text \<open>\<open>chunk(text, maxLen)\<close>: after the loop the buffer is pushed if its trimmed form is not empty.\<close>

definition chunk :: "string \<Rightarrow> nat \<Rightarrow> string list" where
  "chunk text maxLen =
     (case chunk_loop maxLen (split_sentences text) [] [] of
        (parts, buf) \<Rightarrow> if trim buf \<noteq> [] then parts @ [trim buf] else parts)"

section \<open>Exceptions, early returns and calls to the outside\<close>

text \<open>
  A JavaScript statement completes normally, returns from the enclosing function, or
  throws. \<open>Normal\<close> carries the values the statement leaves for what follows it (the
  local variables it has set).
\<close>

datatype exn = Exn string

datatype ('a, 'r) completion = Normal 'a | Return 'r | Throw exn

text \<open>
  The requests the program sends to the services it depends on, in the order sent:
  \<open>YoutubeTranscript.fetchTranscript(videoId, {lang})\<close> (no language: \<open>None\<close>),
  \<open>axios.get(url)\<close>, \<open>ai.generate({prompt})\<close> and
  \<open>ai.generate({prompt, output: {schema, format}})\<close>.
\<close>

datatype call =
    CaptionCall string "string option"
  | MetadataCall string
  | GenerateCall string
  | GenerateStructuredCall string

type_synonym ('a, 'r) stmt = "('a, 'r) completion \<times> call list"

definition skip :: "(unit, 'r) stmt" where
  "skip = (Normal (), [])"

definition ret :: "'r \<Rightarrow> ('a, 'r) stmt" where
  "ret r = (Return r, [])"

text \<open>\<open>s; k\<close>: what follows a statement runs only if it completes normally.\<close>

definition seq :: "('a, 'r) stmt \<Rightarrow> ('a \<Rightarrow> ('b, 'r) stmt) \<Rightarrow> ('b, 'r) stmt" where
  "seq s k =
     (case s of
        (Normal a, t) \<Rightarrow> (case k a of (c, t') \<Rightarrow> (c, t @ t'))
      | (Return r, t) \<Rightarrow> (Return r, t)
      | (Throw e, t) \<Rightarrow> (Throw e, t))"

text \<open>\<open>try { s } catch (e) { h }\<close>: only a throw of \<open>s\<close> reaches the handler.\<close>

definition try_catch :: "('a, 'r) stmt \<Rightarrow> (exn \<Rightarrow> ('a, 'r) stmt) \<Rightarrow> ('a, 'r) stmt" where
  "try_catch s h =
     (case s of
        (Throw e, t) \<Rightarrow> (case h e of (c, t') \<Rightarrow> (c, t @ t'))
      | (Normal a, t) \<Rightarrow> (Normal a, t)
      | (Return r, t) \<Rightarrow> (Return r, t))"

text \<open>
  \<open>await service(request)\<close>: the request is recorded, and the service answers with a
  value or by throwing (a rejected promise). \<open>evaluate\<close> is an expression of the
  language itself that may throw, such as \<open>new URL(input)\<close>; it sends nothing.
\<close>

definition await :: "call \<Rightarrow> exn + 'v \<Rightarrow> ('v, 'r) stmt" where
  "await c response = (case response of Inl e \<Rightarrow> (Throw e, [c]) | Inr v \<Rightarrow> (Normal v, [c]))"

definition evaluate :: "exn + 'v \<Rightarrow> ('v, 'r) stmt" where
  "evaluate response = (case response of Inl e \<Rightarrow> (Throw e, []) | Inr v \<Rightarrow> (Normal v, []))"

text \<open>
  A call \<open>f(..)\<close> of a function of type \<open>string | null\<close> with body \<open>body\<close>: its
  \<open>return\<close> is the value of the call, running off its end gives \<open>undefined\<close> (which
  is \<open>None\<close>, as \<open>null\<close> is), and what it throws is thrown at the call.
\<close>

definition call_fn :: "('a, 'v option) stmt \<Rightarrow> ('v option, 'r) stmt" where
  "call_fn body =
     (case body of
        (Return v, t) \<Rightarrow> (Normal v, t)
      | (Normal a, t) \<Rightarrow> (Normal None, t)
      | (Throw e, t) \<Rightarrow> (Throw e, t))"

text \<open>The truth value of a \<open>string | null | undefined\<close>: only a non-empty string is true.\<close>

definition truthy :: "string option \<Rightarrow> bool" where
  "truthy v = (case v of None \<Rightarrow> False | Some s \<Rightarrow> s \<noteq> [])"

text \<open>\<open>xs.join(sep)\<close>.\<close>

fun join_with :: "string \<Rightarrow> string list \<Rightarrow> string" where
  "join_with sep [] = []"
| "join_with sep [x] = x"
| "join_with sep (x # y # ys) = x @ sep @ join_with sep (y # ys)"

section \<open>The video reference resolver\<close>

text \<open>What \<open>extractVideoId\<close> reads of a parsed \<open>URL\<close>.\<close>

record url =
  hostname :: string
  pathname :: string
  searchParams :: "(string \<times> string) list"

text \<open>\<open>/^[\w-]{11}$/.test(input)\<close>: exactly eleven characters, each a letter, a digit, \<open>_\<close> or \<open>-\<close>.\<close>

definition is_word :: "char \<Rightarrow> bool" where
  "is_word c =
     (c \<in> set ''abcdefghijklmnopqrstuvwxyzABCDEFGHIJKLMNOPQRSTUVWXYZ0123456789_'')"

definition valid_id :: "string \<Rightarrow> bool" where
  "valid_id s = (length s = 11 \<and> list_all (\<lambda>c. is_word c \<or> c = CHR ''-'') s)"

text \<open>\<open>s.includes(sub)\<close>.\<close>

fun includes_str :: "string \<Rightarrow> string \<Rightarrow> bool" where
  "includes_str [] sub = (sub = [])"
| "includes_str (c # cs) sub = (take (length sub) (c # cs) = sub \<or> includes_str cs sub)"

text \<open>\<open>s.split(sep)\<close> for a separator of one character.\<close>

fun split_on :: "char \<Rightarrow> string \<Rightarrow> string \<Rightarrow> string list" where
  "split_on sep cur [] = [cur]"
| "split_on sep cur (c # cs) =
     (if c = sep then cur # split_on sep [] cs else split_on sep (cur @ [c]) cs)"

text \<open>\<open>xs.indexOf(x)\<close>, which is \<open>-1\<close> when \<open>x\<close> is not in \<open>xs\<close>, and \<open>xs[i]\<close>, which is \<open>undefined\<close> out of range.\<close>

fun indexOf :: "'a list \<Rightarrow> 'a \<Rightarrow> int" where
  "indexOf [] x = - 1"
| "indexOf (y # ys) x =
     (if y = x then 0 else (if indexOf ys x < 0 then - 1 else indexOf ys x + 1))"

definition at_index :: "'a list \<Rightarrow> int \<Rightarrow> 'a option" where
  "at_index xs i = (if 0 \<le> i \<and> nat i < length xs then Some (xs ! nat i) else None)"

text \<open>
  \<open>extractVideoId(input)\<close>. \<open>new URL\<close> is the platform's parser; it is the parameter
  \<open>newURL\<close>, which throws on what is not a URL.
\<close>

definition extractVideoId :: "(string \<Rightarrow> exn + url) \<Rightarrow> string \<Rightarrow> (unit, string option) stmt" where
  "extractVideoId newURL input =
     try_catch
       (if valid_id input then ret (Some input)
        else seq (evaluate (newURL input)) (\<lambda>url.
          if includes_str (hostname url) ''youtu.be'' then ret (Some (drop 1 (pathname url)))
          else
            let v = map_of (searchParams url) ''v'' in
            if truthy v then ret v
            else
              let parts = split_on CHR ''/'' [] (pathname url);
                  idx = indexOf parts ''embed''
              in if 0 \<le> idx \<and> truthy (at_index parts (idx + 1))
                 then ret (at_index parts (idx + 1))
                 else ret None))
       (\<lambda>e. ret None)"

section \<open>The transcript acquirer\<close>

text \<open>
  The services and the configuration the program depends on. The caption service
  answers with the texts of the caption cues, the metadata service with
  \<open>res.data.items\<close> (which may be missing), each item with its snippet's title and
  description (\<open>None\<close>: an item without snippet, on which \<open>item.snippet\<close> cannot be
  destructured). \<open>generate\<close> answers with \<open>res.text\<close>, \<open>generateOutput\<close> with
  \<open>finalRes.output\<close> (\<open>None\<close>: no response or no output).
\<close>

record SummaryResult =
  title :: string
  summary :: string
  bullets :: "string list"
  warnings :: "string list option"

record env =
  newURL :: "string \<Rightarrow> exn + url"
  fetchTranscriptApi :: "string \<Rightarrow> string option \<Rightarrow> exn + string list"
  axiosGet :: "string \<Rightarrow> exn + (string \<times> string) option list option"
  generate :: "string \<Rightarrow> exn + string"
  generateOutput :: "string \<Rightarrow> exn + SummaryResult option"
  YOUTUBE_API_KEY :: "string option"

definition newline :: string where
  "newline = [CHR 0x0A]"

definition metadata_url :: "string \<Rightarrow> string \<Rightarrow> string" where
  "metadata_url videoId apiKey =
     ''https://www.googleapis.com/youtube/v3/videos?part=snippet&id='' @ videoId @ ''&key='' @ apiKey"

text \<open>
  The first two blocks of \<open>fetchTranscript\<close> differ in the language only:
  \<^verbatim>\<open>
    try {
      const texts = await YoutubeTranscript.fetchTranscript(videoId, { lang: "en" });
      if (texts.length) { return texts.map((t) => t.text).join(" "); }
    } catch (err) { console.warn(..); }
  \<close>
\<close>

definition caption_tier :: "env \<Rightarrow> string \<Rightarrow> string option \<Rightarrow> (unit, string option) stmt" where
  "caption_tier env videoId lang =
     try_catch
       (seq (await (CaptionCall videoId lang) (fetchTranscriptApi env videoId lang)) (\<lambda>texts.
          if length texts \<noteq> 0 then ret (Some (join_with '' '' texts)) else skip))
       (\<lambda>err. skip)"

text \<open>The third block, reached with a truthy \<open>apiKey\<close>.\<close>

definition metadata_tier :: "env \<Rightarrow> string \<Rightarrow> string \<Rightarrow> (unit, string option) stmt" where
  "metadata_tier env videoId apiKey =
     try_catch
       (seq (await (MetadataCall (metadata_url videoId apiKey)) (axiosGet env (metadata_url videoId apiKey)))
          (\<lambda>items.
             case (case items of None \<Rightarrow> None | Some [] \<Rightarrow> None | Some (item # others) \<Rightarrow> Some item) of
               None \<Rightarrow> skip
             | Some item \<Rightarrow>
                 (case item of
                    None \<Rightarrow> (Throw (Exn ''TypeError''), [])
                  | Some (video_title, description) \<Rightarrow> ret (Some (video_title @ newline @ description)))))
       (\<lambda>err. skip)"

definition fetchTranscript :: "env \<Rightarrow> string \<Rightarrow> (unit, string option) stmt" where
  "fetchTranscript env videoId =
     seq (caption_tier env videoId (Some ''en'')) (\<lambda>_.
     seq (caption_tier env videoId None) (\<lambda>_.
       case YOUTUBE_API_KEY env of
         None \<Rightarrow> ret None
       | Some apiKey \<Rightarrow>
           if apiKey = [] then ret None
           else seq (metadata_tier env videoId apiKey) (\<lambda>_. ret None)))"

section \<open>The summarization pipeline\<close>

definition digit :: "nat \<Rightarrow> char" where
  "digit d = ''0123456789'' ! d"

text \<open>A non-negative integer in a template literal: its decimal digits.\<close>

fun show_nat :: "nat \<Rightarrow> string" where
  "show_nat n = (if n < 10 then [digit n] else show_nat (n div 10) @ [digit (n mod 10)])"

declare show_nat.simps [simp del]

text \<open>
  The two prompts. The dash of \<open>5-8\<close> is an en dash in the source (U+2013); it stands
  here as the three bytes of its UTF-8 form. The program never looks inside a prompt.
\<close>

definition chunk_prompt :: "nat \<Rightarrow> nat \<Rightarrow> string \<Rightarrow> string" where
  "chunk_prompt i n section_text =
     ''Summarize the following transcript chunk ('' @ show_nat (i + 1) @ ''/'' @ show_nat n @
     '') into 5'' @ [CHR 0xE2, CHR 0x80, CHR 0x93] @
     ''8 bullet points. Be concise, specific, and factual.'' @ newline @ newline @ section_text"

definition summary_prompt :: "string \<Rightarrow> string" where
  "summary_prompt combinedBullets =
     ''Combine these bullets into a complete structured summary. '' @
     ''Your output MUST strictly follow the provided JSON schema. '' @
     ''The summary should be a paragraph combining all key points. '' @
     ''The 'bullets' field should be a consolidated list of the most important takeaways from all chunks.'' @
     newline @ newline @ ''Source Bullet Points:'' @ newline @ combinedBullets"

text \<open>The six results the flow builds itself.\<close>

definition invalid_result :: SummaryResult where
  "invalid_result =
     \<lparr>title = ''Invalid YouTube URL or ID'',
      summary = ''The provided input is not a valid YouTube URL or video ID.'',
      bullets = [],
      warnings = Some [''Invalid YouTube URL or ID provided.'']\<rparr>"

definition unavailable_result :: SummaryResult where
  "unavailable_result =
     \<lparr>title = ''Transcript not available'',
      summary = ''This video has no subtitles or transcript.'',
      bullets = [],
      warnings = Some [''YouTube did not expose captions for this video.'']\<rparr>"

definition empty_result :: SummaryResult where
  "empty_result =
     \<lparr>title = ''Transcript is empty'',
      summary = ''The transcript for this video is empty or could not be processed.'',
      bullets = [],
      warnings = Some [''Transcript is empty or invalid.'']\<rparr>"

definition chunks_failed_result :: SummaryResult where
  "chunks_failed_result =
     \<lparr>title = ''Summary unavailable'',
      summary = ''Unable to generate summary from the transcript.'',
      bullets = [],
      warnings = Some [''Failed to generate summary from transcript chunks.'']\<rparr>"

definition parse_failed_result :: SummaryResult where
  "parse_failed_result =
     \<lparr>title = ''Summary unavailable'',
      summary = ''Unable to generate a valid summary from the transcript.'',
      bullets = [],
      warnings = Some [''Failed to parse final summary output.'']\<rparr>"

definition generation_error_result :: SummaryResult where
  "generation_error_result =
     \<lparr>title = ''Summary generation error'',
      summary = ''An error occurred while generating the summary.'',
      bullets = [],
      warnings = Some [''Exception during final summary generation.'']\<rparr>"

text \<open>
  Step 1, the loop \<open>for (const [i, section] of parts.entries())\<close> with its variable
  \<open>partials\<close>; \<open>n\<close> is \<open>parts.length\<close>.
  \<^verbatim>\<open>
    try {
      const res = await ai.generate({ prompt: .. });
      if (res.text) { partials.push(res.text); } else { partials.push(""); }
    } catch (error) { partials.push(""); }
  \<close>
\<close>

fun stage1 :: "env \<Rightarrow> nat \<Rightarrow> nat \<Rightarrow> string list \<Rightarrow> string list \<Rightarrow> (string list, 'r) stmt" where
  "stage1 env n i [] partials = (Normal partials, [])"
| "stage1 env n i (section_text # rest) partials =
     seq (try_catch
            (seq (await (GenerateCall (chunk_prompt i n section_text))
                    (generate env (chunk_prompt i n section_text)))
               (\<lambda>res_text.
                  if res_text \<noteq> [] then (Normal (partials @ [res_text]), [])
                  else (Normal (partials @ [[]]), [])))
            (\<lambda>error. (Normal (partials @ [[]]), [])))
       (\<lambda>partials. stage1 env n (i + 1) rest partials)"

text \<open>Step 2: the reduction call in its \<open>try\<close> block.\<close>

definition stage2 :: "env \<Rightarrow> string \<Rightarrow> (unit, SummaryResult) stmt" where
  "stage2 env combinedBullets =
     try_catch
       (seq (await (GenerateStructuredCall (summary_prompt combinedBullets))
               (generateOutput env (summary_prompt combinedBullets)))
          (\<lambda>output. case output of Some result \<Rightarrow> ret result | None \<Rightarrow> ret parse_failed_result))
       (\<lambda>error. ret generation_error_result)"

text \<open>The flow from \<open>const partials: string[] = []\<close> to its end, for the chunks \<open>parts\<close>.\<close>

definition summarize_parts :: "env \<Rightarrow> string list \<Rightarrow> (unit, SummaryResult) stmt" where
  "summarize_parts env parts =
     seq (stage1 env (length parts) 0 parts []) (\<lambda>partials.
       let combinedBullets = join_with newline (filter (\<lambda>p. p \<noteq> []) partials)
       in if combinedBullets = [] then ret chunks_failed_result
          else stage2 env combinedBullets)"

text \<open>The flow \<open>summarizeYouTube\<close>.\<close>

definition summarizeYouTube :: "env \<Rightarrow> string \<Rightarrow> (unit, SummaryResult) stmt" where
  "summarizeYouTube env urlOrId =
     seq (call_fn (extractVideoId (newURL env) urlOrId)) (\<lambda>videoId.
       case videoId of
         None \<Rightarrow> ret invalid_result
       | Some vid \<Rightarrow>
           if vid = [] then ret invalid_result
           else seq (call_fn (fetchTranscript env vid)) (\<lambda>transcript.
             case transcript of
               None \<Rightarrow> ret unavailable_result
             | Some transcript_text \<Rightarrow>
                 if transcript_text = [] then ret unavailable_result
                 else
                   let parts = chunk transcript_text 6500
                   in if length parts = 0 then ret empty_result
                      else summarize_parts env parts))"

section \<open>The admission limiter\<close>

text \<open>
  \<open>hits\<close> is a \<open>Map<string, number[]>\<close>; times are milliseconds as \<open>Date.now()\<close> gives
  them. Of a request the limiter reads the header \<open>x-forwarded-for\<close> (as a string, if
  present) and \<open>req.ip\<close>.
\<close>

type_synonym hits = "string \<rightharpoonup> int list"

definition WINDOW_MS :: int where
  "WINDOW_MS = 30000"

definition MAX_REQ :: nat where
  "MAX_REQ = 15"

record request =
  x_forwarded_for :: "string option"
  req_ip :: "string option"

text \<open>
  \<open>req.headers["x-forwarded-for"]?.toString().split(",")[0].trim() || req.ip || "unknown"\<close>;
  \<open>a || b\<close> is \<open>a\<close> when \<open>a\<close> is a non-empty string and \<open>b\<close> otherwise.
\<close>

definition or_else :: "string option \<Rightarrow> string \<Rightarrow> string" where
  "or_else a b = (case a of None \<Rightarrow> b | Some s \<Rightarrow> if s \<noteq> [] then s else b)"

definition client_ip :: "request \<Rightarrow> string" where
  "client_ip req =
     or_else
       (case x_forwarded_for req of
          None \<Rightarrow> None
        | Some h \<Rightarrow> Some (trim (hd (split_on CHR '','' [] h))))
       (or_else (req_ip req) ''unknown'')"

text \<open>The middleware answers with status 429 or hands the request on with \<open>next()\<close>.\<close>

datatype verdict = TooManyRequests | Next

definition rate_limiter :: "hits \<Rightarrow> request \<Rightarrow> int \<Rightarrow> verdict \<times> hits" where
  "rate_limiter hits req now =
     (let ip = client_ip req;
          arr = filter (\<lambda>t. now - t < WINDOW_MS) (case hits ip of None \<Rightarrow> [] | Some a \<Rightarrow> a) @ [now];
          hits' = hits(ip \<mapsto> arr)
      in if length arr > MAX_REQ then (TooManyRequests, hits') else (Next, hits'))"

text \<open>
  The server handles requests one after the other on the one map: the verdicts for a
  sequence of requests, each with the time at which it is handled.
\<close>

fun serve :: "hits \<Rightarrow> (request \<times> int) list \<Rightarrow> verdict list \<times> hits" where
  "serve hits [] = ([], hits)"
| "serve hits ((req, now) # later) =
     (case rate_limiter hits req now of
        (v, hits') \<Rightarrow> (case serve hits' later of (vs, hits'') \<Rightarrow> (v # vs, hits'')))"

section \<open>Notions of the specification\<close>


text \<open>
  The buffer the chunker builds when it never flushes: the pieces joined by single
  spaces. \<open>normalised\<close> is the text with each separator of \<open>split_sentences\<close> replaced by
  one space and the white space at its two ends removed. \<open>single_spaced\<close> says that
  every such separator is one space already and that none ends the text.
\<close>

definition join_pieces :: "string \<Rightarrow> string list \<Rightarrow> string" where
  "join_pieces buf pieces =
     foldl (\<lambda>buf piece. buf @ (if buf \<noteq> [] then '' '' else []) @ piece) buf pieces"

definition normalised :: "string \<Rightarrow> string" where
  "normalised text = trim (join_pieces [] (split_sentences text))"

fun single_spaced :: "bool \<Rightarrow> string \<Rightarrow> bool" where
  "single_spaced after_terminal [] = True"
| "single_spaced after_terminal (c # cs) =
     (if after_terminal \<and> is_space c
      then c = CHR '' '' \<and> cs \<noteq> [] \<and> \<not> is_space (hd cs) \<and> single_spaced False cs
      else single_spaced (is_terminal c) cs)"


text \<open>
  The entry Step 1 records for chunk \<open>i\<close> of \<open>n\<close>: the text of the answer, or the
  empty string when the call throws.
\<close>

definition partial_bullets :: "env \<Rightarrow> nat \<Rightarrow> nat \<Rightarrow> string \<Rightarrow> string" where
  "partial_bullets env n i section_text =
     (case generate env (chunk_prompt i n section_text) of Inl e \<Rightarrow> [] | Inr res_text \<Rightarrow> res_text)"

definition is_stage2_call :: "call \<Rightarrow> bool" where
  "is_stage2_call c = (case c of GenerateStructuredCall p \<Rightarrow> True | _ \<Rightarrow> False)"

text \<open>The time stamps recorded for an identity.\<close>

definition recorded :: "hits \<Rightarrow> string \<Rightarrow> int list" where
  "recorded hits ip = (case hits ip of None \<Rightarrow> [] | Some a \<Rightarrow> a)"

text \<open>The entries Step 1 records for the chunks \<open>parts\<close>, by position.\<close>

definition partial_bullets_list :: "env \<Rightarrow> string list \<Rightarrow> string list" where
  "partial_bullets_list env parts =
     map (\<lambda>(i, section_text). partial_bullets env (length parts) i section_text) (enumerate 0 parts)"

text \<open>
  A caption tier fails or returns nothing: the call throws, or there is no cue
  (\<open>texts.length\<close> is zero, which is what the code tests). \<open>tier_failed_or_empty_text\<close>
  is the wider reading: the call throws, or the text of the cues joined by spaces is
  empty. The metadata tier fails or returns nothing: there is no key, the call throws,
  there is no item, or the item has no snippet to read the title from.
\<close>

definition tier_failed_or_empty :: "exn + string list \<Rightarrow> bool" where
  "tier_failed_or_empty response = (case response of Inl e \<Rightarrow> True | Inr texts \<Rightarrow> texts = [])"



section \<open>Sample inputs\<close>

text \<open>
  What \<open>new URL\<close> gives for three URLs: host name, path and query parameters as the URL
  standard defines them. The table is used to run the resolver on these three URLs
  and on strings that are no URL at all, on which \<open>new URL\<close> throws a \<open>TypeError\<close>.
\<close>

definition sample_newURL :: "string \<Rightarrow> exn + url" where
  "sample_newURL s =
     (if s = ''https://youtu.be/abc''
      then Inr \<lparr>hostname = ''youtu.be'', pathname = ''/abc'', searchParams = []\<rparr>
      else if s = ''https://www.youtube.com/watch?v=dQw4w9WgXcQ''
      then Inr \<lparr>hostname = ''www.youtube.com'', pathname = ''/watch'',
                searchParams = [(''v'', ''dQw4w9WgXcQ'')]\<rparr>
      else if s = ''https://www.youtube.com/embed/xyz?a=1''
      then Inr \<lparr>hostname = ''www.youtube.com'', pathname = ''/embed/xyz'',
                searchParams = [(''a'', ''1'')]\<rparr>
      else Inl (Exn ''TypeError: Invalid URL''))"

text \<open>
  An environment: no English captions, two cues without language constraint, a
  metadata item, a generation service that answers every chunk prompt, and a
  reduction call that throws.
\<close>

definition sample_env :: env where
  "sample_env =
     \<lparr>newURL = sample_newURL,
      fetchTranscriptApi =
        (\<lambda>videoId lang. if lang = None then Inr [''Hi.'', ''Yo!''] else Inl (Exn ''no captions'')),
      axiosGet = (\<lambda>u. Inr (Some [Some (''Title'', ''Words.'')])),
      generate = (\<lambda>prompt. Inr ''- a point''),
      generateOutput = (\<lambda>prompt. Inl (Exn ''overloaded'')),
      YOUTUBE_API_KEY = Some ''key''\<rparr>"

text \<open>A generation service that answers for the first and the third of three chunks only.\<close>

definition patchy_generate :: "string \<Rightarrow> exn + string" where
  "patchy_generate prompt =
     (if prompt = chunk_prompt 0 3 ''A.'' then Inr ''- one''
      else if prompt = chunk_prompt 2 3 ''C.'' then Inr ''- three''
      else Inl (Exn ''unavailable''))"

text \<open>
  A client whose identity is \<open>10.0.0.7\<close>, fifteen requests of it one second apart, and a
  map in which it has fifteen time stamps, one at 0 and fourteen at 20000.
\<close>

definition sample_request :: request where
  "sample_request = \<lparr>x_forwarded_for = Some ''10.0.0.7, 10.0.0.1'', req_ip = Some ''10.0.0.1''\<rparr>"

definition sample_requests :: "(request \<times> int) list" where
  "sample_requests =
     map (\<lambda>t. (sample_request, t))
       [0, 1000, 2000, 3000, 4000, 5000, 6000, 7000, 8000, 9000, 10000, 11000, 12000, 13000, 14000]"

definition busy_hits :: hits where
  "busy_hits =
     Map.empty(''10.0.0.7'' \<mapsto>
       [0, 20000, 20000, 20000, 20000, 20000, 20000, 20000, 20000, 20000, 20000, 20000, 20000,
        20000, 20000])"

section \<open>Facts about the chunker\<close>

lemma split_pieces_not_Nil: "split_pieces a cur rest \<noteq> []"
  by (induction a cur rest rule: split_pieces.induct) auto

lemma split_sentences_not_Nil: "split_sentences s \<noteq> []"
  by (simp add: split_sentences_def split_pieces_not_Nil)

text \<open>The split and the chunker on some texts, as the program computes them.\<close>

lemma split_sentences_examples:
  "split_sentences ''Hello. World!  How?'' = [''Hello.'', ''World!'', ''How?'']"
  "split_sentences ''Hello. '' = [''Hello.'', []]"
  "split_sentences '' a.b. c'' = ['' a.b.'', ''c'']"
  "split_sentences [] = [[]]"
  by (simp_all add: split_sentences_def is_space_def is_terminal_def)

lemma chunk_examples:
  "chunk ''Hello world. Foo bar. Baz'' 13 = [''Hello world.'', ''Foo bar. Baz'']"
  "chunk ''aaaa. bbbbb.'' 2 = [[], ''aaaa.'', ''bbbbb.'']"
  "chunk '' '' 5 = []"
  "chunk [] 0 = [[]]"
  by (simp_all add: chunk_def split_sentences_def trim_def is_space_def is_terminal_def)

lemma chunk_loop_parts_prefix: "\<exists>pushed. fst (chunk_loop L ps parts buf) = parts @ pushed"
  by (induction ps arbitrary: parts buf) (auto, metis append.assoc)




subsection \<open>Only white space is lost\<close>








subsection \<open>The bound on a chunk\<close>





subsection \<open>A text shorter than the bound\<close>

lemma join_pieces_simps [simp]:
  "join_pieces buf [] = buf"
  "join_pieces buf (p # ps) = join_pieces (buf @ (if buf \<noteq> [] then '' '' else []) @ p) ps"
  by (simp_all add: join_pieces_def)

lemma chunk_loop_no_flush:
  "length buf + sum_list (map (\<lambda>p. Suc (length p)) ps) \<le> L \<Longrightarrow>
   chunk_loop L ps parts buf = (parts, join_pieces buf ps)"
  by (induction ps arbitrary: buf) auto

lemma split_pieces_total_length:
  "sum_list (map (\<lambda>p. Suc (length p)) (split_pieces a cur rest)) \<le> Suc (length cur + length rest)"
proof (induction a cur rest rule: split_pieces.induct)
  case (1 a cur)
  then show ?case by simp
next
  case (2 a cur c cs)
  show ?case
  proof (cases "a \<and> is_space c")
    case True
    have "length (dropWhile is_space cs) \<le> length cs"
      by (rule length_dropWhile_le)
    then show ?thesis using True 2(1) by simp
  next
    case False
    then show ?thesis using 2(2) by auto
  qed
qed

lemma chunk_short_text:
  assumes "length s < maxLen"
  shows "chunk s maxLen = (if normalised s = [] then [] else [normalised s])"
proof -
  have "sum_list (map (\<lambda>p. Suc (length p)) (split_sentences s)) \<le> maxLen"
    using split_pieces_total_length [of False "[]" s] assms
    by (simp add: split_sentences_def)
  then have "chunk_loop maxLen (split_sentences s) [] [] = ([], join_pieces [] (split_sentences s))"
    by (simp add: chunk_loop_no_flush)
  then show ?thesis
    by (simp add: chunk_def normalised_def)
qed

lemma join_pieces_nonempty:
  "buf \<noteq> [] \<Longrightarrow> join_pieces buf ps = buf @ concat (map (\<lambda>p. CHR '' '' # p) ps)"
  by (induction ps arbitrary: buf) auto

lemma dropWhile_hd_id: "cs \<noteq> [] \<Longrightarrow> \<not> P (hd cs) \<Longrightarrow> dropWhile P cs = cs"
  by (cases cs) auto

lemma split_pieces_single_spaced:
  "single_spaced a rest \<Longrightarrow>
   (case split_pieces a cur rest of
      [] \<Rightarrow> False
    | p # ps \<Rightarrow> p @ concat (map (\<lambda>p. CHR '' '' # p) ps) = cur @ rest)"
proof (induction a cur rest rule: split_pieces.induct)
  case (1 a cur)
  then show ?case by simp
next
  case (2 a cur c cs)
  show ?case
  proof (cases "a \<and> is_space c")
    case True
    then have c: "c = CHR '' ''" and cs: "cs \<noteq> []" "\<not> is_space (hd cs)"
      and rest: "single_spaced False cs"
      using 2(3) by auto
    have dw: "dropWhile is_space cs = cs"
      using cs by (rule dropWhile_hd_id)
    have "case split_pieces False [] cs of [] \<Rightarrow> False
          | p # ps \<Rightarrow> p @ concat (map (\<lambda>p. CHR '' '' # p) ps) = [] @ cs"
      using 2(1) [OF True] rest unfolding dw by simp
    then show ?thesis
      using True c dw by (auto split: list.splits)
  next
    case False
    then have "single_spaced (is_terminal c) cs"
      using 2(3) by auto
    then show ?thesis
      using False 2(2) by (auto split: list.splits)
  qed
qed

lemma split_pieces_first_piece:
  "length cur \<le> length (hd (split_pieces a cur rest))"
  by (induction a cur rest rule: split_pieces.induct) auto

lemma normalised_single_spaced:
  assumes "s \<noteq> []" and "single_spaced False s" and "trim s = s"
  shows "normalised s = s"
proof -
  obtain c cs where shape: "s = c # cs"
    using assms(1) by (cases s) auto
  obtain p ps where sp: "split_pieces False [] s = p # ps"
    using split_pieces_not_Nil [of False "[]" s]
    by (cases "split_pieces False [] s") auto
  have "length [c] \<le> length (hd (split_pieces (is_terminal c) [c] cs))"
    by (rule split_pieces_first_piece)
  then have "p \<noteq> []"
    using sp shape by auto
  moreover have "p @ concat (map (\<lambda>p. CHR '' '' # p) ps) = s"
    using split_pieces_single_spaced [OF assms(2), of "[]"] sp by simp
  ultimately have "join_pieces [] (split_sentences s) = s"
    by (simp add: split_sentences_def sp join_pieces_nonempty)
  then show ?thesis
    using assms(3) by (simp add: normalised_def)
qed

text \<open>
  Claim C8, as amended. The claim says that a text shorter than \<open>maxLen\<close> gives one
  chunk, the text itself. The chunker does not flush such a text, so there is at most
  one chunk, but the chunk is the normalised text (the pieces joined by single spaces,
  trimmed), and there is no chunk at all when that is empty. The chunk is the text
  itself when the text is not empty, has no white space at its ends, and has exactly
  one space wherever white space follows \<open>.\<close>, \<open>!\<close> or \<open>?\<close>.
\<close>

theorem chunk_of_short_text:
  assumes "length text < maxLen"
  shows "chunk text maxLen = (if normalised text = [] then [] else [normalised text]) \<and>
         (text \<noteq> [] \<and> trim text = text \<and> single_spaced False text \<longrightarrow> chunk text maxLen = [text])"
  using assms chunk_short_text [of "text" maxLen] normalised_single_spaced [of "text"]
  by auto

theorem chunk_of_short_text_witness:
  "length ''Hi. Yo!'' < 10 \<and> chunk ''Hi. Yo!'' 10 = [''Hi. Yo!'']"
proof -
  have short: "length ''Hi. Yo!'' < 10"
    by simp
  have clean: "''Hi. Yo!'' \<noteq> [] \<and> trim ''Hi. Yo!'' = ''Hi. Yo!'' \<and> single_spaced False ''Hi. Yo!''"
    by (simp add: trim_def is_space_def is_terminal_def)
  show ?thesis
    using short clean chunk_of_short_text [OF short] by blast
qed

text \<open>
  The claim as stated fails on a short text with two spaces after a sentence (the chunk
  has one), and on the empty text (there is no chunk).
\<close>

theorem chunk_of_short_text_counterexample:
  "length ''Hi.  Yo!'' < 100 \<and> chunk ''Hi.  Yo!'' 100 \<noteq> [''Hi.  Yo!''] \<and>
   length ([] :: string) < 100 \<and> chunk [] 100 = []"
  by (simp add: chunk_def split_sentences_def trim_def is_space_def is_terminal_def)

subsection \<open>A first sentence as long as the bound\<close>

text \<open>
  Claim C9. When the first piece of the sentence split is at least \<open>maxLen\<close> long,
  the first chunk is the empty string: the first test of the loop already exceeds the
  bound, and the buffer, still empty, is pushed.
\<close>

theorem chunk_oversized_first_piece:
  assumes "maxLen \<le> length (hd (split_sentences text))"
  shows "\<exists>rest. chunk text maxLen = [] # rest"
proof -
  obtain p ps where sp: "split_sentences text = p # ps"
    using split_sentences_not_Nil [of "text"] by (cases "split_sentences text") auto
  have "maxLen < length ([] @ '' '' @ p)"
    using assms sp by simp
  then have "chunk_loop maxLen (p # ps) [] [] = chunk_loop maxLen ps [[]] p"
    by (simp add: trim_def)
  moreover obtain pushed where "fst (chunk_loop maxLen ps [[]] p) = [[]] @ pushed"
    using chunk_loop_parts_prefix by blast
  ultimately show ?thesis
    by (cases "chunk_loop maxLen ps [[]] p") (auto simp: chunk_def sp)
qed

theorem chunk_oversized_first_piece_witness:
  "3 \<le> length (hd (split_sentences ''aaaa. b.'')) \<and> (\<exists>rest. chunk ''aaaa. b.'' 3 = [] # rest)"
proof -
  have big: "3 \<le> length (hd (split_sentences ''aaaa. b.''))"
    by (simp add: split_sentences_def is_space_def is_terminal_def)
  show ?thesis
    using big chunk_oversized_first_piece [OF big] by simp
qed

section \<open>Facts about statements\<close>

lemma seq_simps [simp]:
  "seq (Normal a, t) k = (fst (k a), t @ snd (k a))"
  "seq (Return r, t) k = (Return r, t)"
  "seq (Throw e, t) k = (Throw e, t)"
  by (simp_all add: seq_def split: prod.splits)

lemma try_catch_simps [simp]:
  "try_catch (Normal a, t) h = (Normal a, t)"
  "try_catch (Return r, t) h = (Return r, t)"
  "try_catch (Throw e, t) h = (fst (h e), t @ snd (h e))"
  by (simp_all add: try_catch_def split: prod.splits)

lemma call_fn_simps [simp]:
  "call_fn (Return v, t) = (Normal v, t)"
  "call_fn (Normal a, t) = (Normal None, t)"
  "call_fn (Throw e, t) = (Throw e, t)"
  by (simp_all add: call_fn_def)

lemma await_simps [simp]:
  "await c (Inl e) = (Throw e, [c])"
  "await c (Inr v) = (Normal v, [c])"
  by (simp_all add: await_def)

lemma evaluate_simps [simp]:
  "evaluate (Inl e) = (Throw e, [])"
  "evaluate (Inr v) = (Normal v, [])"
  by (simp_all add: evaluate_def)

section \<open>Facts about the resolver\<close>

lemma extractVideoId_cases:
  "extractVideoId parse input =
     (if valid_id input then (Return (Some input), [])
      else case parse input of
        Inl e \<Rightarrow> (Return None, [])
      | Inr u \<Rightarrow>
          if includes_str (hostname u) ''youtu.be'' then (Return (Some (drop 1 (pathname u))), [])
          else if truthy (map_of (searchParams u) ''v'') then (Return (map_of (searchParams u) ''v''), [])
          else if 0 \<le> indexOf (split_on CHR ''/'' [] (pathname u)) ''embed'' \<and>
                  truthy (at_index (split_on CHR ''/'' [] (pathname u))
                            (indexOf (split_on CHR ''/'' [] (pathname u)) ''embed'' + 1))
          then (Return (at_index (split_on CHR ''/'' [] (pathname u))
                          (indexOf (split_on CHR ''/'' [] (pathname u)) ''embed'' + 1)), [])
          else (Return None, []))"
  by (cases "parse input") (simp_all add: extractVideoId_def ret_def Let_def)

lemma extractVideoId_Return: "\<exists>v. extractVideoId parse input = (Return v, [])"
  by (simp add: extractVideoId_cases split: sum.splits)




section \<open>Facts about the acquirer\<close>

lemma caption_tier_cases:
  "caption_tier env vid lang =
     (case fetchTranscriptApi env vid lang of
        Inl e \<Rightarrow> (Normal (), [CaptionCall vid lang])
      | Inr texts \<Rightarrow>
          if texts = [] then (Normal (), [CaptionCall vid lang])
          else (Return (Some (join_with '' '' texts)), [CaptionCall vid lang]))"
  by (simp add: caption_tier_def skip_def ret_def split: sum.splits)

lemma metadata_tier_cases:
  "metadata_tier env vid k =
     (case axiosGet env (metadata_url vid k) of
        Inr (Some (Some (t, d) # others)) \<Rightarrow>
          (Return (Some (t @ newline @ d)), [MetadataCall (metadata_url vid k)])
      | _ \<Rightarrow> (Normal (), [MetadataCall (metadata_url vid k)]))"
  by (simp add: metadata_tier_def skip_def ret_def split: sum.splits option.splits list.splits)

lemma fetchTranscript_cases:
  "fetchTranscript env vid =
     (if \<not> tier_failed_or_empty (fetchTranscriptApi env vid (Some ''en''))
      then (Return (Some (join_with '' '' (projr (fetchTranscriptApi env vid (Some ''en''))))),
            [CaptionCall vid (Some ''en'')])
      else if \<not> tier_failed_or_empty (fetchTranscriptApi env vid None)
      then (Return (Some (join_with '' '' (projr (fetchTranscriptApi env vid None)))),
            [CaptionCall vid (Some ''en''), CaptionCall vid None])
      else case YOUTUBE_API_KEY env of
        None \<Rightarrow> (Return None, [CaptionCall vid (Some ''en''), CaptionCall vid None])
      | Some k \<Rightarrow>
          if k = [] then (Return None, [CaptionCall vid (Some ''en''), CaptionCall vid None])
          else (case axiosGet env (metadata_url vid k) of
                  Inr (Some (Some (t, d) # others)) \<Rightarrow> Return (Some (t @ newline @ d))
                | _ \<Rightarrow> Return None,
                [CaptionCall vid (Some ''en''), CaptionCall vid None,
                 MetadataCall (metadata_url vid k)]))"
  by (simp add: fetchTranscript_def caption_tier_cases metadata_tier_cases ret_def
        tier_failed_or_empty_def split: sum.splits option.splits list.splits)

lemma fetchTranscript_Return:
  "\<exists>v t. fetchTranscript env vid = (Return v, t) \<and> filter is_stage2_call t = [] \<and>
     (\<forall>p. GenerateStructuredCall p \<notin> set t)"
  by (simp add: fetchTranscript_cases is_stage2_call_def split: sum.splits option.splits list.splits)



section \<open>Facts about the pipeline\<close>

lemma stage1_eq:
  "stage1 env n i sections partials =
     (Normal (partials @ map (\<lambda>(k, s). partial_bullets env n k s) (enumerate i sections)),
      map (\<lambda>(k, s). GenerateCall (chunk_prompt k n s)) (enumerate i sections))"
proof (induction sections arbitrary: i partials)
  case Nil
  then show ?case by simp
next
  case (Cons s sections)
  show ?case
    by (cases "generate env (chunk_prompt i n s)")
       (simp_all add: Cons.IH partial_bullets_def)
qed

lemma stage2_eq:
  "stage2 env cb =
     (Return (case generateOutput env (summary_prompt cb) of
                Inl e \<Rightarrow> generation_error_result
              | Inr None \<Rightarrow> parse_failed_result
              | Inr (Some r) \<Rightarrow> r),
      [GenerateStructuredCall (summary_prompt cb)])"
  by (simp add: stage2_def ret_def split: sum.splits option.splits)

lemma summarize_parts_eq:
  "summarize_parts env parts =
     (let cb = join_with newline (filter (\<lambda>p. p \<noteq> []) (partial_bullets_list env parts));
          calls1 = map (\<lambda>(k, s). GenerateCall (chunk_prompt k (length parts) s)) (enumerate 0 parts)
      in if cb = [] then (Return chunks_failed_result, calls1)
         else (fst (stage2 env cb), calls1 @ snd (stage2 env cb)))"
  by (simp add: summarize_parts_def stage1_eq partial_bullets_list_def Let_def ret_def)

lemma join_with_nonempty:
  "\<forall>x\<in>set xs. x \<noteq> [] \<Longrightarrow> join_with sep xs = [] \<longleftrightarrow> xs = []"
  by (induction sep xs rule: join_with.induct) auto

lemma combined_empty_iff:
  "join_with sep (filter (\<lambda>p. p \<noteq> []) ps) = [] \<longleftrightarrow> (\<forall>p\<in>set ps. p = [])"
  using join_with_nonempty [of "filter (\<lambda>p. p \<noteq> []) ps" sep]
  by (auto simp: filter_empty_conv)

lemma stage1_calls_not_stage2:
  "filter is_stage2_call (map (\<lambda>(k, s). GenerateCall (chunk_prompt k n s)) xs) = []"
  by (induction xs) (auto simp: is_stage2_call_def)

lemma summarize_parts_stage2_calls:
  "filter is_stage2_call (snd (summarize_parts env parts)) =
     (if \<forall>p\<in>set (partial_bullets_list env parts). p = [] then []
      else [GenerateStructuredCall (summary_prompt
              (join_with newline (filter (\<lambda>p. p \<noteq> []) (partial_bullets_list env parts))))])"
  by (simp add: summarize_parts_eq Let_def combined_empty_iff stage1_calls_not_stage2 stage2_eq
        is_stage2_call_def)

lemma summarizeYouTube_eq:
  assumes "extractVideoId (newURL env) u = (Return videoId, [])"
  shows "summarizeYouTube env u =
     (case videoId of
        None \<Rightarrow> (Return invalid_result, [])
      | Some vid \<Rightarrow>
          if vid = [] then (Return invalid_result, [])
          else (case fst (fetchTranscript env vid) of
                  Return (Some t) \<Rightarrow>
                    if t = [] then (Return unavailable_result, snd (fetchTranscript env vid))
                    else if chunk t 6500 = [] then (Return empty_result, snd (fetchTranscript env vid))
                    else (fst (summarize_parts env (chunk t 6500)),
                          snd (fetchTranscript env vid) @ snd (summarize_parts env (chunk t 6500)))
                | _ \<Rightarrow> (Return unavailable_result, snd (fetchTranscript env vid))))"
proof (cases videoId)
  case None
  then show ?thesis
    using assms by (simp add: summarizeYouTube_def ret_def)
next
  case (Some vid)
  obtain v t where ft: "fetchTranscript env vid = (Return v, t)"
    using fetchTranscript_Return by blast
  show ?thesis
    using assms Some ft
    by (cases v) (simp_all add: summarizeYouTube_def ret_def Let_def)
qed

subsection \<open>The requests of one run\<close>

text \<open>
  A service is a function of the request it is sent. For one run of the flow this is no
  restriction, since no request is sent twice: the prompts of the chunks carry their
  positions, and the other requests differ in kind or in language.
\<close>

lemma digit_inj: "a < 10 \<Longrightarrow> b < 10 \<Longrightarrow> digit a = digit b \<Longrightarrow> a = b"
proof -
  assume a: "a < 10" and b: "b < 10" and eq: "digit a = digit b"
  have d: "distinct ''0123456789''"
    by simp
  have "''0123456789'' ! a = ''0123456789'' ! b"
    using eq by (simp add: digit_def)
  then show "a = b"
    using d a b by (simp add: nth_eq_iff_index_eq)
qed

lemma digit_not_slash: "d < 10 \<Longrightarrow> digit d \<noteq> CHR ''/''"
proof -
  assume "d < 10"
  then have "digit d \<in> set ''0123456789''"
    unfolding digit_def by (intro nth_mem) simp
  then show ?thesis by auto
qed

lemma show_nat_not_Nil: "show_nat n \<noteq> []"
  by (subst show_nat.simps) simp

lemma show_nat_no_slash: "CHR ''/'' \<notin> set (show_nat n)"
proof (induction n rule: show_nat.induct)
  case (1 n)
  show ?case
  proof (cases "n < 10")
    case True
    then show ?thesis
      using digit_not_slash [of n] by (subst show_nat.simps) auto
  next
    case False
    then show ?thesis
      using 1 digit_not_slash [of "n mod 10"] by (subst show_nat.simps) auto
  qed
qed

lemma show_nat_inj: "show_nat m = show_nat n \<Longrightarrow> m = n"
proof (induction m arbitrary: n rule: show_nat.induct)
  case (1 m)
  have sm: "show_nat m = (if m < 10 then [digit m] else show_nat (m div 10) @ [digit (m mod 10)])"
    by (subst show_nat.simps) simp
  have sn: "show_nat n = (if n < 10 then [digit n] else show_nat (n div 10) @ [digit (n mod 10)])"
    by (subst show_nat.simps) simp
  show ?case
  proof (cases "m < 10")
    case True
    show ?thesis
    proof (cases "n < 10")
      case n: True
      then show ?thesis
        using True 1(2) sm sn digit_inj by auto
    next
      case False
      then show ?thesis
        using True 1(2) sm sn show_nat_not_Nil [of "n div 10"] by auto
    qed
  next
    case False
    show ?thesis
    proof (cases "n < 10")
      case True
      then show ?thesis
        using False 1(2) sm sn show_nat_not_Nil [of "m div 10"] by auto
    next
      case n: False
      have "show_nat (m div 10) = show_nat (n div 10)" and d: "digit (m mod 10) = digit (n mod 10)"
        using False n 1(2) sm sn by auto
      then have "m div 10 = n div 10"
        using 1(1) [OF False] by simp
      moreover have "m mod 10 = n mod 10"
        using d digit_inj [of "m mod 10" "n mod 10"] by simp
      ultimately show ?thesis
        by (metis div_mult_mod_eq)
    qed
  qed
qed

lemma before_slash:
  assumes "CHR ''/'' \<notin> set a" and "CHR ''/'' \<notin> set b"
    and "a @ CHR ''/'' # r = b @ CHR ''/'' # r'"
  shows "a = b"
proof -
  have "takeWhile (\<lambda>c. c \<noteq> CHR ''/'') (a @ CHR ''/'' # r) = a"
    using assms(1) by (auto simp: takeWhile_tail)
  moreover have "takeWhile (\<lambda>c. c \<noteq> CHR ''/'') (b @ CHR ''/'' # r') = b"
    using assms(2) by (auto simp: takeWhile_tail)
  ultimately show ?thesis
    using assms(3) by simp
qed

lemma chunk_prompt_inj: "chunk_prompt i n s = chunk_prompt j n' s' \<Longrightarrow> i = j"
proof -
  assume "chunk_prompt i n s = chunk_prompt j n' s'"
  then have "show_nat (i + 1) @ CHR ''/'' # (show_nat n @ '') into 5'' @ [CHR 0xE2, CHR 0x80, CHR 0x93] @
     ''8 bullet points. Be concise, specific, and factual.'' @ newline @ newline @ s) =
     show_nat (j + 1) @ CHR ''/'' # (show_nat n' @ '') into 5'' @ [CHR 0xE2, CHR 0x80, CHR 0x93] @
     ''8 bullet points. Be concise, specific, and factual.'' @ newline @ newline @ s')"
    by (simp add: chunk_prompt_def)
  then have "show_nat (i + 1) = show_nat (j + 1)"
    using before_slash show_nat_no_slash by blast
  then show "i = j"
    using show_nat_inj by fastforce
qed

lemma stage1_calls_distinct:
  "distinct (map (\<lambda>(k, s). GenerateCall (chunk_prompt k n s)) (enumerate i xs))"
proof (rule iffD2 [OF distinct_map], intro conjI)
  show "distinct (enumerate i xs)"
    by (rule distinct_enumerate)
  show "inj_on (\<lambda>(k, s). GenerateCall (chunk_prompt k n s)) (set (enumerate i xs))"
  proof (rule inj_onI)
    fix p q
    assume p: "p \<in> set (enumerate i xs)" and q: "q \<in> set (enumerate i xs)"
      and eq: "(case p of (k, s) \<Rightarrow> GenerateCall (chunk_prompt k n s)) =
               (case q of (k, s) \<Rightarrow> GenerateCall (chunk_prompt k n s))"
    have "chunk_prompt (fst p) n (snd p) = chunk_prompt (fst q) n (snd q)"
      using eq by (simp add: case_prod_beta)
    then have "fst p = fst q"
      by (rule chunk_prompt_inj)
    then show "p = q"
      using p q by (auto simp: in_set_enumerate_eq prod_eq_iff)
  qed
qed

lemma fetchTranscript_calls_distinct: "distinct (snd (fetchTranscript env vid))"
  by (simp add: fetchTranscript_cases split: option.splits)

lemma fetchTranscript_calls_kind:
  "c \<in> set (snd (fetchTranscript env vid)) \<Longrightarrow> (\<exists>v l. c = CaptionCall v l) \<or> (\<exists>u. c = MetadataCall u)"
  by (auto simp: fetchTranscript_cases split: option.splits if_splits)

lemma summarize_parts_calls_distinct: "distinct (snd (summarize_parts env parts))"
  by (auto simp: summarize_parts_eq Let_def stage2_eq stage1_calls_distinct)

lemma summarize_parts_calls_kind:
  "c \<in> set (snd (summarize_parts env parts)) \<Longrightarrow>
     (\<exists>p. c = GenerateCall p) \<or> (\<exists>p. c = GenerateStructuredCall p)"
  by (auto simp: summarize_parts_eq Let_def stage2_eq split: if_splits)

lemma summarizeYouTube_calls_distinct: "distinct (snd (summarizeYouTube env urlOrId))"
proof -
  obtain videoId where ex: "extractVideoId (newURL env) urlOrId = (Return videoId, [])"
    using extractVideoId_Return by blast
  have apart: "set (snd (fetchTranscript env vid)) \<inter> set (snd (summarize_parts env parts)) = {}"
    for vid parts
    using fetchTranscript_calls_kind [of _ env vid] summarize_parts_calls_kind [of _ env parts]
    by fastforce
  show ?thesis
    by (auto simp: summarizeYouTube_eq [OF ex] fetchTranscript_calls_distinct
          summarize_parts_calls_distinct apart
        split: option.splits completion.splits)
qed

text \<open>
  Claim C4. The entries Step 1 records are the answers to the chunk prompts, by
  position, the empty string standing for a call that threw. If one of them is not
  empty, the reduction call is sent exactly once, and its prompt carries the non-empty
  entries in the order of the chunks, joined by newlines. If all are empty, no
  reduction call is sent and the result is the \<open>Summary unavailable\<close> result for failed
  chunks. The flow, once it has resolved the reference, has a transcript and has at
  least one chunk, ends as this part does and sends the reduction calls this part sends.
\<close>

theorem stage2_invoked_iff_partial:
  "fst (stage1 env (length parts) 0 parts []) = Normal (partial_bullets_list env parts) \<and>
   ((\<exists>p\<in>set (partial_bullets_list env parts). p \<noteq> []) \<longrightarrow>
      filter is_stage2_call (snd (summarize_parts env parts)) =
        [GenerateStructuredCall
           (summary_prompt (join_with newline (filter (\<lambda>p. p \<noteq> []) (partial_bullets_list env parts))))]) \<and>
   ((\<forall>p\<in>set (partial_bullets_list env parts). p = []) \<longrightarrow>
      filter is_stage2_call (snd (summarize_parts env parts)) = [] \<and>
      fst (summarize_parts env parts) = Return chunks_failed_result) \<and>
   (fst (extractVideoId (newURL env) urlOrId) = Return (Some vid) \<and> vid \<noteq> [] \<and>
    fst (fetchTranscript env vid) = Return (Some transcript) \<and> transcript \<noteq> [] \<and>
    chunk transcript 6500 \<noteq> [] \<longrightarrow>
      fst (summarizeYouTube env urlOrId) = fst (summarize_parts env (chunk transcript 6500)) \<and>
      filter is_stage2_call (snd (summarizeYouTube env urlOrId)) =
        filter is_stage2_call (snd (summarize_parts env (chunk transcript 6500))))"
proof -
  have a: "fst (stage1 env (length parts) 0 parts []) = Normal (partial_bullets_list env parts)"
    by (simp add: stage1_eq partial_bullets_list_def)
  have b: "(\<forall>p\<in>set (partial_bullets_list env parts). p = []) \<longrightarrow>
      fst (summarize_parts env parts) = Return chunks_failed_result"
    by (simp add: summarize_parts_eq Let_def combined_empty_iff)
  have c: "fst (summarizeYouTube env urlOrId) = fst (summarize_parts env (chunk transcript 6500)) \<and>
      filter is_stage2_call (snd (summarizeYouTube env urlOrId)) =
        filter is_stage2_call (snd (summarize_parts env (chunk transcript 6500)))"
    if h: "fst (extractVideoId (newURL env) urlOrId) = Return (Some vid)" "vid \<noteq> []"
      "fst (fetchTranscript env vid) = Return (Some transcript)" "transcript \<noteq> []"
      "chunk transcript 6500 \<noteq> []"
  proof -
    have ex: "extractVideoId (newURL env) urlOrId = (Return (Some vid), [])"
      using h(1) extractVideoId_Return [of "newURL env" urlOrId] by auto
    obtain v t where ft: "fetchTranscript env vid = (Return v, t)" "filter is_stage2_call t = []"
      using fetchTranscript_Return by blast
    show ?thesis
      using h ft by (simp add: summarizeYouTube_eq [OF ex])
  qed
  have d: "(\<exists>p\<in>set (partial_bullets_list env parts). p \<noteq> []) \<longrightarrow>
      filter is_stage2_call (snd (summarize_parts env parts)) =
        [GenerateStructuredCall
           (summary_prompt (join_with newline (filter (\<lambda>p. p \<noteq> []) (partial_bullets_list env parts))))]"
    by (auto simp: summarize_parts_stage2_calls)
  have e: "(\<forall>p\<in>set (partial_bullets_list env parts). p = []) \<longrightarrow>
      filter is_stage2_call (snd (summarize_parts env parts)) = []"
    by (simp add: summarize_parts_stage2_calls)
  show ?thesis
    using a b c d e by blast
qed

theorem stage2_invoked_iff_partial_witness:
  "partial_bullets_list (sample_env\<lparr>generate := patchy_generate\<rparr>) [''A.'', ''B.'', ''C.''] =
     [''- one'', [], ''- three''] \<and>
   filter is_stage2_call
     (snd (summarize_parts (sample_env\<lparr>generate := patchy_generate\<rparr>) [''A.'', ''B.'', ''C.''])) =
     [GenerateStructuredCall (summary_prompt (''- one'' @ newline @ ''- three''))] \<and>
   filter is_stage2_call
     (snd (summarize_parts (sample_env\<lparr>generate := (\<lambda>prompt. Inl (Exn ''quota''))\<rparr>) [''A.'', ''B.''])) = [] \<and>
   fst (summarize_parts (sample_env\<lparr>generate := (\<lambda>prompt. Inl (Exn ''quota''))\<rparr>) [''A.'', ''B.'']) =
     Return chunks_failed_result \<and>
   fst (summarizeYouTube sample_env ''dQw4w9WgXcQ'') = fst (summarize_parts sample_env [''Hi. Yo!''])"
proof -
  let ?patchy = "sample_env\<lparr>generate := patchy_generate\<rparr>"
  let ?failing = "sample_env\<lparr>generate := (\<lambda>prompt. Inl (Exn ''quota''))\<rparr>"
  have patchy: "partial_bullets_list ?patchy [''A.'', ''B.'', ''C.''] = [''- one'', [], ''- three'']"
    by (simp add: partial_bullets_list_def partial_bullets_def patchy_generate_def enumerate_simps
          chunk_prompt_def show_nat.simps digit_def)
  have failing: "partial_bullets_list ?failing [''A.'', ''B.''] = [[], []]"
    by (simp add: partial_bullets_list_def partial_bullets_def enumerate_simps)
  have some: "\<exists>p\<in>set (partial_bullets_list ?patchy [''A.'', ''B.'', ''C.'']). p \<noteq> []"
    by (simp add: patchy)
  have none: "\<forall>p\<in>set (partial_bullets_list ?failing [''A.'', ''B.'']). p = []"
    by (simp add: failing)
  have resolved: "fst (extractVideoId (newURL sample_env) ''dQw4w9WgXcQ'') = Return (Some ''dQw4w9WgXcQ'')"
    by (simp add: extractVideoId_cases valid_id_def is_word_def)
  have fetched: "fst (fetchTranscript sample_env ''dQw4w9WgXcQ'') = Return (Some ''Hi. Yo!'')"
    by (simp add: fetchTranscript_cases tier_failed_or_empty_def sample_env_def)
  have chunked: "chunk ''Hi. Yo!'' 6500 = [''Hi. Yo!'']"
    by (simp add: chunk_def split_sentences_def trim_def is_space_def is_terminal_def)
  have "filter is_stage2_call (snd (summarize_parts ?patchy [''A.'', ''B.'', ''C.''])) =
     [GenerateStructuredCall (summary_prompt (join_with newline
        (filter (\<lambda>p. p \<noteq> []) (partial_bullets_list ?patchy [''A.'', ''B.'', ''C.'']))))]"
    using stage2_invoked_iff_partial [of ?patchy "[''A.'', ''B.'', ''C.'']" "[]" "[]" "[]"] some
    by blast
  then have once: "filter is_stage2_call (snd (summarize_parts ?patchy [''A.'', ''B.'', ''C.''])) =
     [GenerateStructuredCall (summary_prompt (''- one'' @ newline @ ''- three''))]"
    by (simp add: patchy)
  have never: "filter is_stage2_call (snd (summarize_parts ?failing [''A.'', ''B.''])) = [] \<and>
      fst (summarize_parts ?failing [''A.'', ''B.'']) = Return chunks_failed_result"
    using stage2_invoked_iff_partial [of ?failing "[''A.'', ''B.'']" "[]" "[]" "[]"] none
    by blast
  have "fst (summarizeYouTube sample_env ''dQw4w9WgXcQ'') =
      fst (summarize_parts sample_env (chunk ''Hi. Yo!'' 6500))"
    using stage2_invoked_iff_partial [of sample_env "[]" "''dQw4w9WgXcQ''" "''dQw4w9WgXcQ''" "''Hi. Yo!''"]
      resolved fetched chunked
    by simp
  then have flow: "fst (summarizeYouTube sample_env ''dQw4w9WgXcQ'') = fst (summarize_parts sample_env [''Hi. Yo!''])"
    by (simp add: chunked)
  show ?thesis
    using patchy once never flow by simp
qed



section \<open>Facts about the limiter\<close>

lemma rate_limiter_eq:
  "rate_limiter hits req now =
     (if length (filter (\<lambda>t. now - t < WINDOW_MS) (recorded hits (client_ip req))) < MAX_REQ
      then Next else TooManyRequests,
      hits(client_ip req \<mapsto> filter (\<lambda>t. now - t < WINDOW_MS) (recorded hits (client_ip req)) @ [now]))"
  by (auto simp: rate_limiter_def recorded_def Let_def)

lemma recorded_update [simp]: "recorded (hits(ip \<mapsto> arr)) ip = arr"
  by (simp add: recorded_def)

lemma serve_keeps:
  assumes "\<forall>r\<in>set rs. client_ip (fst r) = ip"
    and "\<forall>a\<in>set (pre @ map snd rs). \<forall>b\<in>set (map snd rs). b - a < WINDOW_MS"
    and "recorded hits ip = old @ pre"
  shows "\<exists>old'. recorded (snd (serve hits rs)) ip = old' @ pre @ map snd rs"
  using assms
proof (induction rs arbitrary: hits old pre)
  case Nil
  then show ?case by auto
next
  case (Cons r rs)
  obtain req now where r: "r = (req, now)"
    by (cases r) auto
  have ip: "client_ip req = ip"
    using Cons.prems(1) r by simp
  let ?hits = "snd (rate_limiter hits req now)"
  have keep: "filter (\<lambda>t. now - t < WINDOW_MS) pre = pre"
    using Cons.prems(2) r by (auto simp: filter_id_conv)
  have rec: "recorded ?hits ip = filter (\<lambda>t. now - t < WINDOW_MS) old @ (pre @ [now])"
    using ip keep by (simp add: rate_limiter_eq Cons.prems(3))
  have "\<exists>old'. recorded (snd (serve ?hits rs)) ip = old' @ (pre @ [now]) @ map snd rs"
  proof (rule Cons.IH [OF _ _ rec])
    show "\<forall>r\<in>set rs. client_ip (fst r) = ip"
      using Cons.prems(1) by simp
    show "\<forall>a\<in>set ((pre @ [now]) @ map snd rs). \<forall>b\<in>set (map snd rs). b - a < WINDOW_MS"
      using Cons.prems(2) r by auto
  qed
  then show ?case
    using r by (auto split: prod.splits)
qed

lemma sixteenth_rejected:
  assumes "length rs = 15"
    and "\<forall>r\<in>set rs. client_ip (fst r) = client_ip req"
    and "\<forall>a\<in>set (map snd rs @ [now]). \<forall>b\<in>set (map snd rs @ [now]). b - a < WINDOW_MS"
  shows "fst (rate_limiter (snd (serve hits rs)) req now) = TooManyRequests"
proof -
  have "\<exists>old'. recorded (snd (serve hits rs)) (client_ip req) = old' @ [] @ map snd rs"
  proof (rule serve_keeps [OF assms(2)])
    show "\<forall>a\<in>set ([] @ map snd rs). \<forall>b\<in>set (map snd rs). b - a < WINDOW_MS"
      using assms(3) by auto
    show "recorded hits (client_ip req) = recorded hits (client_ip req) @ []"
      by simp
  qed
  then obtain old' where rec: "recorded (snd (serve hits rs)) (client_ip req) = old' @ map snd rs"
    by auto
  have "filter (\<lambda>t. now - t < WINDOW_MS) (map snd rs) = map snd rs"
    using assms(3) by (auto simp: filter_id_conv)
  then have "length (filter (\<lambda>t. now - t < WINDOW_MS) (old' @ map snd rs)) \<ge> 15"
    using assms(1) by simp
  then show ?thesis
    by (simp add: rate_limiter_eq rec MAX_REQ_def)
qed

lemma after_window_admitted:
  assumes "\<forall>t\<in>set (recorded hits (client_ip req)). WINDOW_MS \<le> now - t"
  shows "rate_limiter hits req now = (Next, hits(client_ip req \<mapsto> [now]))"
proof -
  have "filter (\<lambda>t. now - t < WINDOW_MS) (recorded hits (client_ip req)) = []"
    using assms by (auto simp: filter_empty_conv)
  then show ?thesis
    by (simp add: rate_limiter_eq MAX_REQ_def)
qed

text \<open>
  Claim C5. On a request the limiter stores, for the identity of the request, the
  recorded time stamps that are less than 30000 ms old (so none that is older than 30
  seconds stays) followed by the time of the request, and hands the request on exactly
  when this list has at most 15 entries. So after fifteen requests of one identity, a
  sixteenth is rejected when the sixteen times lie less than 30000 ms apart; and a
  request is handed on when every recorded time stamp of its identity is at least
  30000 ms old.
\<close>

theorem rate_limiter_sliding_window:
  "snd (rate_limiter hits req now) =
     hits(client_ip req \<mapsto> filter (\<lambda>t. now - t < 30000) (recorded hits (client_ip req)) @ [now]) \<and>
   (fst (rate_limiter hits req now) = Next \<longleftrightarrow>
      length (filter (\<lambda>t. now - t < 30000) (recorded hits (client_ip req)) @ [now]) \<le> 15) \<and>
   (fst (rate_limiter hits req now) = TooManyRequests \<longleftrightarrow>
      15 < length (filter (\<lambda>t. now - t < 30000) (recorded hits (client_ip req)) @ [now])) \<and>
   (length rs = 15 \<and> (\<forall>r\<in>set rs. client_ip (fst r) = client_ip req) \<and>
    (\<forall>a\<in>set (map snd rs @ [now]). \<forall>b\<in>set (map snd rs @ [now]). b - a < 30000) \<longrightarrow>
      fst (rate_limiter (snd (serve hits rs)) req now) = TooManyRequests) \<and>
   ((\<forall>t\<in>set (recorded hits (client_ip req)). 30000 \<le> now - t) \<longrightarrow>
      fst (rate_limiter hits req now) = Next)"
proof -
  have step: "snd (rate_limiter hits req now) =
     hits(client_ip req \<mapsto> filter (\<lambda>t. now - t < 30000) (recorded hits (client_ip req)) @ [now])"
    by (simp add: rate_limiter_eq WINDOW_MS_def)
  have admit: "fst (rate_limiter hits req now) = Next \<longleftrightarrow>
      length (filter (\<lambda>t. now - t < 30000) (recorded hits (client_ip req)) @ [now]) \<le> 15"
    by (auto simp: rate_limiter_eq WINDOW_MS_def MAX_REQ_def)
  have reject: "fst (rate_limiter hits req now) = TooManyRequests \<longleftrightarrow>
      15 < length (filter (\<lambda>t. now - t < 30000) (recorded hits (client_ip req)) @ [now])"
    by (auto simp: rate_limiter_eq WINDOW_MS_def MAX_REQ_def)
  have sixteenth: "fst (rate_limiter (snd (serve hits rs)) req now) = TooManyRequests"
    if "length rs = 15" "\<forall>r\<in>set rs. client_ip (fst r) = client_ip req"
      "\<forall>a\<in>set (map snd rs @ [now]). \<forall>b\<in>set (map snd rs @ [now]). b - a < 30000"
    using that sixteenth_rejected [of rs req now hits] by (simp add: WINDOW_MS_def)
  have again: "fst (rate_limiter hits req now) = Next"
    if "\<forall>t\<in>set (recorded hits (client_ip req)). 30000 \<le> now - t"
    using that after_window_admitted [of hits req now] by (simp add: WINDOW_MS_def)
  show ?thesis
    using step admit reject sixteenth again by blast
qed

theorem rate_limiter_sliding_window_witness:
  "fst (rate_limiter (snd (serve Map.empty sample_requests)) sample_request 15000) = TooManyRequests \<and>
   fst (rate_limiter busy_hits sample_request 50000) = Next"
proof -
  have ip: "client_ip sample_request = ''10.0.0.7''"
    by (simp add: client_ip_def or_else_def sample_request_def trim_def is_space_def)
  have n: "length sample_requests = 15"
    by (simp add: sample_requests_def)
  have same: "\<forall>r\<in>set sample_requests. client_ip (fst r) = client_ip sample_request"
    by (simp add: sample_requests_def)
  have close: "\<forall>a\<in>set (map snd sample_requests @ [15000]). \<forall>b\<in>set (map snd sample_requests @ [15000]). b - a < 30000"
    by (simp add: sample_requests_def)
  have old: "\<forall>t\<in>set (recorded busy_hits (client_ip sample_request)). 30000 \<le> 50000 - t"
    by (simp add: ip recorded_def busy_hits_def)
  have a: "fst (rate_limiter (snd (serve Map.empty sample_requests)) sample_request 15000) = TooManyRequests"
    using rate_limiter_sliding_window [of Map.empty sample_request 15000 sample_requests] n same close
    by blast
  have b: "fst (rate_limiter busy_hits sample_request 50000) = Next"
    using rate_limiter_sliding_window [of busy_hits sample_request 50000 "[]"] old
    by blast
  show ?thesis
    using a b by simp
qed

text \<open>
  Claim C10. The time of a request is stored before the count is tested, so it is
  recorded whether the request is handed on or rejected. A later request of the same
  identity less than 30000 ms after it still finds it in the list, and is rejected
  exactly when the stored list, pruned for the later time, has 15 entries or more. In
  particular a request that follows a rejected one, while all stored time stamps are
  still less than 30000 ms old, is rejected as well.
\<close>

theorem rate_limiter_records_every_request:
  "recorded (snd (rate_limiter hits req now)) (client_ip req) =
     filter (\<lambda>t. now - t < WINDOW_MS) (recorded hits (client_ip req)) @ [now] \<and>
   (fst (rate_limiter hits req now) = TooManyRequests \<longrightarrow>
      now \<in> set (recorded (snd (rate_limiter hits req now)) (client_ip req))) \<and>
   (client_ip req' = client_ip req \<and> now' - now < WINDOW_MS \<longrightarrow>
      now \<in> set (recorded (snd (rate_limiter (snd (rate_limiter hits req now)) req' now')) (client_ip req)) \<and>
      (fst (rate_limiter (snd (rate_limiter hits req now)) req' now') = TooManyRequests \<longleftrightarrow>
         MAX_REQ \<le> length (filter (\<lambda>t. now' - t < WINDOW_MS)
                            (recorded (snd (rate_limiter hits req now)) (client_ip req))))) \<and>
   (fst (rate_limiter hits req now) = TooManyRequests \<and> client_ip req' = client_ip req \<and>
    (\<forall>t\<in>set (recorded (snd (rate_limiter hits req now)) (client_ip req)). now' - t < WINDOW_MS) \<longrightarrow>
      fst (rate_limiter (snd (rate_limiter hits req now)) req' now') = TooManyRequests)"
proof -
  let ?w = "filter (\<lambda>t. now - t < WINDOW_MS) (recorded hits (client_ip req)) @ [now]"
  have rec: "recorded (snd (rate_limiter hits req now)) (client_ip req) = ?w"
    by (simp add: rate_limiter_eq)
  have second: "now \<in> set (recorded (snd (rate_limiter (snd (rate_limiter hits req now)) req' now')) (client_ip req)) \<and>
      (fst (rate_limiter (snd (rate_limiter hits req now)) req' now') = TooManyRequests \<longleftrightarrow>
         MAX_REQ \<le> length (filter (\<lambda>t. now' - t < WINDOW_MS)
                            (recorded (snd (rate_limiter hits req now)) (client_ip req))))"
    if "client_ip req' = client_ip req" "now' - now < WINDOW_MS"
    using that by (auto simp: rate_limiter_eq [of _ req'] rec)
  have still: "fst (rate_limiter (snd (rate_limiter hits req now)) req' now') = TooManyRequests"
    if "fst (rate_limiter hits req now) = TooManyRequests" "client_ip req' = client_ip req"
      "\<forall>t\<in>set (recorded (snd (rate_limiter hits req now)) (client_ip req)). now' - t < WINDOW_MS"
  proof -
    have "MAX_REQ \<le> length (filter (\<lambda>t. now - t < WINDOW_MS) (recorded hits (client_ip req)))"
      using that(1) by (auto simp: rate_limiter_eq split: if_splits)
    moreover have "filter (\<lambda>t. now' - t < WINDOW_MS) ?w = ?w"
      using that(3) unfolding rec by (simp only: filter_id_conv) 
    ultimately show ?thesis
      using that(2) by (simp add: rate_limiter_eq [of _ req'] rec)
  qed
  show ?thesis
    using rec second still by auto
qed

theorem rate_limiter_records_every_request_witness:
  "fst (rate_limiter busy_hits sample_request 25000) = TooManyRequests \<and>
   25000 \<in> set (recorded (snd (rate_limiter busy_hits sample_request 25000)) (client_ip sample_request)) \<and>
   fst (rate_limiter (snd (rate_limiter busy_hits sample_request 25000)) sample_request 31000) = TooManyRequests \<and>
   fst (rate_limiter busy_hits sample_request 31000) = Next"
proof -
  have ip: "client_ip sample_request = ''10.0.0.7''"
    by (simp add: client_ip_def or_else_def sample_request_def trim_def is_space_def)
  have first: "fst (rate_limiter busy_hits sample_request 25000) = TooManyRequests"
    by (simp add: rate_limiter_eq ip recorded_def busy_hits_def WINDOW_MS_def MAX_REQ_def)
  have direct: "fst (rate_limiter busy_hits sample_request 31000) = Next"
    by (simp add: rate_limiter_eq ip recorded_def busy_hits_def WINDOW_MS_def MAX_REQ_def)
  have stored: "recorded (snd (rate_limiter busy_hits sample_request 25000)) (client_ip sample_request) =
      [0, 20000, 20000, 20000, 20000, 20000, 20000, 20000, 20000, 20000, 20000, 20000, 20000,
        20000, 20000, 25000]"
    using rate_limiter_records_every_request [of busy_hits sample_request 25000 sample_request 31000]
    by (simp add: ip recorded_def busy_hits_def WINDOW_MS_def)
  have near: "(31000::int) - 25000 < WINDOW_MS"
    by (simp add: WINDOW_MS_def)
  have counted: "MAX_REQ \<le> length (filter (\<lambda>t. 31000 - t < WINDOW_MS)
      (recorded (snd (rate_limiter busy_hits sample_request 25000)) (client_ip sample_request)))"
    unfolding stored by (simp add: WINDOW_MS_def MAX_REQ_def)
  have second: "fst (rate_limiter (snd (rate_limiter busy_hits sample_request 25000)) sample_request 31000) = TooManyRequests"
    using rate_limiter_records_every_request [of busy_hits sample_request 25000 sample_request 31000]
      near counted by blast
  have member: "25000 \<in> set (recorded (snd (rate_limiter busy_hits sample_request 25000)) (client_ip sample_request))"
    using rate_limiter_records_every_request [of busy_hits sample_request 25000 sample_request 31000]
      first by blast
  show ?thesis
    using first member second direct by simp
qed


end
